theory Spec2Isabelle
  imports Main "HOL-Library.Sublist"
begin

section \<open>MathAgent: the workflow generation and execution engine\<close>

text \<open>
  A shallow embedding of \<^verbatim>\<open>src/math_agent/agent.py\<close>. The instance attributes of
  \<^verbatim>\<open>MathAgent\<close> are the fields of the record \<open>state\<close>; every method takes the
  state and returns the updated one. The collaborators inherited from
  \<^verbatim>\<open>BaseAgent\<close> or taken from the standard library (\<^verbatim>\<open>send_request\<close>,
  \<^verbatim>\<open>pre_select_tools\<close>, \<^verbatim>\<open>check_workflow\<close>, \<^verbatim>\<open>config\<close>,
  \<^verbatim>\<open>tool_info\<close>, \<^verbatim>\<open>json.dumps\<close>, the clock, \<^verbatim>\<open>traceback.format_exc\<close>)
  are the fields of the record \<open>env\<close>: arbitrary functions, which may raise.

  A method that can raise returns \<open>Inl e\<close> when it raises \<open>e\<close>. An
  \<^verbatim>\<open>except Exception\<close> clause handles the exceptions \<open>e\<close> with \<open>is_Exception e\<close>
  and lets the others (\<^verbatim>\<open>KeyboardInterrupt\<close>, \<^verbatim>\<open>SystemExit\<close>) pass.

  Console output goes through the collaborator \<open>print\<close>, which may raise, with one
  exception: the \<^verbatim>\<open>[DEBUG]\<close> line of \<^verbatim>\<open>_log_debug\<close> (line 40) is taken to be
  accepted by the console and is left out. The attributes read by the methods are
  those set in \<^verbatim>\<open>__init__\<close> and are taken to exist.
\<close>

subsection \<open>Data\<close>

text \<open>
  Python exceptions as values: \<open>Exception m\<close> is any instance of \<^verbatim>\<open>Exception\<close>
  with message \<open>m\<close>; \<open>KeyboardInterrupt\<close> and \<open>SystemExit\<close> derive from
  \<^verbatim>\<open>BaseException\<close> only. \<open>str_exn\<close> is \<^verbatim>\<open>str(e)\<close>, \<open>is_Exception\<close> is
  \<^verbatim>\<open>isinstance(e, Exception)\<close>.
\<close>

datatype exn =
    KeyError string
  | AssertionError
  | Exception string
  | KeyboardInterrupt
  | SystemExit

fun str_exn :: "exn \<Rightarrow> string" where
  "str_exn (KeyError k) = [CHR 0x27] @ k @ [CHR 0x27]"
| "str_exn AssertionError = []"
| "str_exn (Exception m) = m"
| "str_exn KeyboardInterrupt = []"
| "str_exn SystemExit = []"

fun is_Exception :: "exn \<Rightarrow> bool" where
  "is_Exception (KeyError k) = True"
| "is_Exception AssertionError = True"
| "is_Exception (Exception m) = True"
| "is_Exception KeyboardInterrupt = False"
| "is_Exception SystemExit = False"

text \<open>A conversation entry \<^verbatim>\<open>{"role": ..., "content": ...}\<close>.\<close>

record message =
  role :: string
  content :: string

text \<open>A workflow step \<^verbatim>\<open>{"action_type": ..., "action": ..., "tool_use": [...]}\<close>.\<close>

record step =
  action_type :: string
  action :: string
  tool_use :: "string list"

text \<open>
  An entry of \<^verbatim>\<open>debug_logs\<close>. The keys \<^verbatim>\<open>error\<close> and \<^verbatim>\<open>traceback\<close> exist
  only in entries written by \<^verbatim>\<open>_log_error\<close> with an exception.
\<close>

record log_entry =
  le_type :: string
  le_message :: string
  le_timestamp :: string
  le_error :: "string option"
  le_traceback :: "string option"

type_synonym tool = string

text \<open>
  \<^verbatim>\<open>LLMQuery(messages=..., tools=..., action_type=..., message_return_type=...)\<close>;
  a keyword the call site does not pass is \<open>None\<close>.
\<close>

record llm_query =
  q_messages :: "message list"
  q_tools :: "tool list option"
  q_action_type :: "string option"
  q_message_return_type :: "string option"

text \<open>
  The calls made to the collaborators, in call order: \<open>SendRequest name q\<close> for
  \<^verbatim>\<open>self.send_request(agent_name=name, query=q)\<close> and \<open>PreSelectTools names\<close> for
  \<^verbatim>\<open>self.pre_select_tools(names)\<close>. A call is recorded whether it returns or raises,
  and a query holds the conversation as it is when the call is made.
\<close>

datatype event =
    SendRequest string llm_query
  | PreSelectTools "string list"

text \<open>The dictionary returned by \<^verbatim>\<open>run\<close>; a key that is not set is \<open>None\<close>.\<close>

record run_result =
  rr_agent_name :: string
  rr_result :: "string option"
  rr_rounds :: nat
  rr_status :: string
  rr_error :: "string option"
  rr_debug_logs :: "log_entry list"

text \<open>The dictionary returned by \<^verbatim>\<open>get_status\<close>.\<close>

record status_info =
  si_agent_name :: string
  si_status :: string
  si_rounds :: "nat option"
  si_workflow_mode :: "string option"
  si_error :: "string option"
  si_debug_logs :: "log_entry list"
  si_timestamp :: string

text \<open>
  The collaborators. \<open>send_request\<close> and \<open>pre_select_tools\<close> see the calls made so
  far, so a transport may answer, or fail, differently on each call;
  \<open>send_request\<close> yields the \<^verbatim>\<open>response_message\<close> of the response, and a malformed
  response (no \<^verbatim>\<open>"response"\<close> key, no \<^verbatim>\<open>response_message\<close>) is one of its
  exceptions. \<open>check_workflow\<close> yields \<open>None\<close> or the parsed steps.
  \<open>tool_info_json\<close> is \<^verbatim>\<open>json.dumps(self.tool_info)\<close>; \<open>now n\<close> is the text of
  the \<open>n\<close>-th reading of \<^verbatim>\<open>datetime.datetime.now().isoformat()\<close>. \<open>print text\<close>
  is \<open>None\<close> when the console accepts the text and \<open>Some e\<close> when \<^verbatim>\<open>print\<close> raises
  \<open>e\<close> (a closed stream, a character the console cannot encode).
\<close>

record env =
  config :: "string \<rightharpoonup> string list"
  tool_info_json :: "exn + string"
  send_request :: "event list \<Rightarrow> llm_query \<Rightarrow> exn + string"
  pre_select_tools :: "event list \<Rightarrow> string list \<Rightarrow> exn + tool list"
  check_workflow :: "string \<Rightarrow> exn + step list option"
  json_dumps_workflow :: "step list \<Rightarrow> string"
  json_dumps_status :: "status_info \<Rightarrow> exn + string"
  now :: "nat \<Rightarrow> string"
  format_exc :: "exn \<Rightarrow> string"
  print :: "string \<Rightarrow> exn option"

text \<open>
  The attributes of a \<^verbatim>\<open>MathAgent\<close> set in \<^verbatim>\<open>__init__\<close> and used by the methods
  below, the number of clock readings so far, and the calls made so far. (The
  timing attributes \<^verbatim>\<open>start_time\<close>, \<^verbatim>\<open>end_time\<close>, \<^verbatim>\<open>request_waiting_times\<close> and
  \<^verbatim>\<open>request_turnaround_times\<close> are never read and are left out.)
\<close>

record state =
  agent_name :: string
  task_input :: string
  plan_max_fail_times :: nat
  tool_call_max_fail_times :: nat
  messages :: "message list"
  workflow_mode :: string
  rounds :: nat
  status :: string
  debug_logs :: "log_entry list"
  clock :: nat
  events :: "event list"

subsection \<open>Text helpers\<close>

definition digit_chars :: string where
  "digit_chars = ''0123456789''"

text \<open>The decimal text of a natural number, as an f-string renders it.\<close>

function str_nat :: "nat \<Rightarrow> string" where
  "str_nat n =
     (if n < 10 then [digit_chars ! n]
      else str_nat (n div 10) @ [digit_chars ! (n mod 10)])"
  by pat_completeness auto
termination
  by (relation "measure id") auto

declare str_nat.simps [simp del]

text \<open>Python truthiness of a value that is \<^verbatim>\<open>None\<close> or a list.\<close>

fun truthy :: "'a list option \<Rightarrow> bool" where
  "truthy None = False"
| "truthy (Some []) = False"
| "truthy (Some (x # xs)) = True"

subsection \<open>Logging and status (lines 33-64)\<close>

text \<open>The entries that \<^verbatim>\<open>_log_debug\<close> and \<^verbatim>\<open>_log_error\<close> build, read at clock \<open>t\<close>.\<close>

definition debug_entry :: "env \<Rightarrow> nat \<Rightarrow> string \<Rightarrow> log_entry" where
  "debug_entry env t msg =
     \<lparr>le_type = ''debug'', le_message = msg, le_timestamp = now env t,
      le_error = None, le_traceback = None\<rparr>"

definition error_entry :: "env \<Rightarrow> nat \<Rightarrow> string \<Rightarrow> exn option \<Rightarrow> log_entry" where
  "error_entry env t msg err =
     \<lparr>le_type = ''error'', le_message = msg, le_timestamp = now env t,
      le_error = map_option str_exn err,
      le_traceback = map_option (format_exc env) err\<rparr>"

definition log_debug :: "env \<Rightarrow> string \<Rightarrow> state \<Rightarrow> state" where
  "log_debug env msg s =
     s\<lparr>debug_logs := debug_logs s @ [debug_entry env (clock s) msg],
       clock := Suc (clock s)\<rparr>"

text \<open>The lines that \<^verbatim>\<open>_log_error\<close> prints (lines 53-56), in order.\<close>

definition error_lines :: "env \<Rightarrow> string \<Rightarrow> exn option \<Rightarrow> string list" where
  "error_lines env msg err =
     (''[ERROR] '' @ msg) #
     (case err of
        None \<Rightarrow> []
      | Some e \<Rightarrow>
          [''[ERROR] Exception: '' @ str_exn e,
           ''[ERROR] Traceback:'' @ [CHR 0x0A] @ format_exc env e])"

text \<open>Printing lines in order: the exception of the first \<^verbatim>\<open>print\<close> that raises.\<close>

fun print_all :: "env \<Rightarrow> string list \<Rightarrow> exn option" where
  "print_all env [] = None"
| "print_all env (line # rest) =
     (case print env line of
        Some e \<Rightarrow> Some e
      | None \<Rightarrow> print_all env rest)"

text \<open>The state that \<^verbatim>\<open>_log_error\<close> leaves when all its lines are printed.\<close>

definition error_logged :: "env \<Rightarrow> string \<Rightarrow> exn option \<Rightarrow> state \<Rightarrow> state" where
  "error_logged env msg err s =
     s\<lparr>debug_logs := debug_logs s @ [error_entry env (clock s) msg err],
       clock := Suc (clock s)\<rparr>"

text \<open>
  \<^verbatim>\<open>_log_error\<close>: the entry is built (the clock is read), the lines are printed,
  the entry is appended. When a \<^verbatim>\<open>print\<close> raises, the entry is not appended.
\<close>

definition log_error :: "env \<Rightarrow> string \<Rightarrow> exn option \<Rightarrow> state \<Rightarrow> (exn + unit) \<times> state" where
  "log_error env msg err s =
     (case print_all env (error_lines env msg err) of
        Some e \<Rightarrow> (Inl e, s\<lparr>clock := Suc (clock s)\<rparr>)
      | None \<Rightarrow> (Inr (), error_logged env msg err s))"

definition update_status :: "env \<Rightarrow> string \<Rightarrow> state \<Rightarrow> state" where
  "update_status env new_status s =
     log_debug env (''Status changed: '' @ status s @ '' -> '' @ new_status)
       (s\<lparr>status := new_status\<rparr>)"

subsection \<open>Construction (lines 9-31)\<close>

text \<open>
  The state that \<^verbatim>\<open>__init__\<close> leaves when the base class's constructor
  returns (when it raises, \<^verbatim>\<open>__init__\<close> raises again and there is no agent).
\<close>

definition MathAgent_init :: "env \<Rightarrow> string \<Rightarrow> string \<Rightarrow> state" where
  "MathAgent_init env name task =
     (let s = \<lparr>agent_name = name, task_input = task, plan_max_fail_times = 3,
                tool_call_max_fail_times = 3, messages = [], workflow_mode = ''manual'',
                rounds = 0, status = ''initialized'', debug_logs = [], clock = 0,
                events = []\<rparr>;
          s1 = log_debug env
                 (''MathAgent initialized with name: '' @ name @ '', task: '' @ task) s
      in log_debug env (''Initial status: '' @ status s1) s1)"

subsection \<open>get_status (lines 66-90)\<close>




subsection \<open>build_system_instruction (lines 191-232)\<close>

definition plan_instruction :: "string \<Rightarrow> string" where
  \<open>plan_instruction tool_info_text = concat
     [''You are given the available tools from the tool list: '' @ tool_info_text
        @ '' to help you solve problems. '',
      ''Generate a plan with comprehensive yet minimal steps to fulfill the task. '',
      ''The plan must follow the json format as below: '',
      ''['',
      ''{"action_type": "action_type_value", "action": "action_value","tool_use": [tool_name1, tool_name2,...]}'',
      ''{"action_type": "action_type_value", "action": "action_value", "tool_use": [tool_name1, tool_name2,...]}'',
      ''...'',
      '']'',
      ''In each step of the planned plan, identify tools to use and recognize no tool is necessary. '',
      ''Followings are some plan examples. '',
      ''['' @ ''['',
      ''{"action_type": "tool_use", "action": "gather information from arxiv. ", "tool_use": ["arxiv"]},'',
      ''{"action_type": "chat", "action": "write a summarization based on the gathered information. ", "tool_use": []}'',
      ''];'',
      ''['',
      ''{"action_type": "tool_use", "action": "gather information from arxiv. ", "tool_use": ["arxiv"]},'',
      ''{"action_type": "chat", "action": "understand the current methods and propose ideas that can improve ", "tool_use": []}'',
      '']'',
      '']'']\<close>

text \<open>The \<^verbatim>\<open>except\<close> branch of \<^verbatim>\<open>build_system_instruction\<close> (lines 229-232).\<close>

definition build_failed :: "env \<Rightarrow> exn \<Rightarrow> state \<Rightarrow> (exn + bool) \<times> state" where
  "build_failed env e s =
     (if is_Exception e then
        (case log_error env ''Error in build_system_instruction'' (Some e) s of
           (Inl e', s1) \<Rightarrow> (Inl e', s1)
         | (Inr u, s1) \<Rightarrow> (Inr False, update_status env ''error'' s1))
      else (Inl e, s))"

definition build_system_instruction :: "env \<Rightarrow> state \<Rightarrow> (exn + bool) \<times> state" where
  "build_system_instruction env s =
     (let s1 = update_status env ''building_system_instruction'' s
      in case config env ''description'' of
           None \<Rightarrow> build_failed env (KeyError ''description'') s1
         | Some description \<Rightarrow>
             (let prefix = concat description
              in case tool_info_json env of
                   Inl e \<Rightarrow> build_failed env e s1
                 | Inr tool_info_text \<Rightarrow>
                     (let instruction = plan_instruction tool_info_text
                      in if workflow_mode s1 = ''manual'' then
                           (Inr True, update_status env ''system_instruction_built''
                              (s1\<lparr>messages := messages s1 @
                                    [\<lparr>role = ''system'', content = prefix\<rparr>]\<rparr>))
                         else if workflow_mode s1 = ''automatic'' then
                           (Inr True, update_status env ''system_instruction_built''
                              (s1\<lparr>messages := messages s1 @
                                    [\<lparr>role = ''system'', content = prefix\<rparr>,
                                     \<lparr>role = ''user'', content = instruction\<rparr>]\<rparr>))
                         else build_failed env AssertionError s1)))"

subsection \<open>manual_workflow (lines 234-259)\<close>

definition manual_steps :: "step list" where
  "manual_steps =
     [\<lparr>action_type = ''tool_use'',
       action = ''Search for relevant mathematical concepts and formulas'',
       tool_use = [''demo_author/arxiv'']\<rparr>,
      \<lparr>action_type = ''chat'',
       action = ''Analyze the mathematical problem and provide solution steps'',
       tool_use = []\<rparr>,
      \<lparr>action_type = ''chat'',
       action = ''Calculate and verify the final answer'',
       tool_use = []\<rparr>]"

text \<open>
  The body of the \<^verbatim>\<open>try\<close> is two status updates around a list literal; none of
  them has a raising branch here, so the \<^verbatim>\<open>except\<close> branch has no counterpart.
\<close>

definition manual_workflow :: "env \<Rightarrow> state \<Rightarrow> step list option \<times> state" where
  "manual_workflow env s =
     (let s1 = update_status env ''generating_workflow'' s;
          workflow = manual_steps
      in (Some workflow, update_status env ''workflow_generated'' s1))"

subsection \<open>automatic_workflow (lines 261-291)\<close>

definition fail_notice :: "nat \<Rightarrow> message" where
  "fail_notice i =
     \<lparr>role = ''assistant'',
      content = ''Fail '' @ str_nat (i + 1)
                  @ '' times to generate a valid plan. I need to regenerate a plan''\<rparr>"

definition plan_query :: "message list \<Rightarrow> llm_query" where
  "plan_query ms =
     \<lparr>q_messages = ms, q_tools = None, q_action_type = None,
      q_message_return_type = Some ''json''\<rparr>"

text \<open>
  The \<^verbatim>\<open>for i in range(self.plan_max_fail_times)\<close> loop over the indices still to
  run. \<open>Inr (Some w)\<close>: the loop returned the workflow \<open>w\<close>; \<open>Inr None\<close>: the loop
  ran to its end; \<open>Inl e\<close>: the body raised \<open>e\<close>.
\<close>

fun plan_attempts :: "env \<Rightarrow> nat list \<Rightarrow> state \<Rightarrow> (exn + step list option) \<times> state" where
  "plan_attempts env [] s = (Inr None, s)"
| "plan_attempts env (i # is) s =
     (let q = plan_query (messages s);
          s1 = s\<lparr>events := events s @ [SendRequest (agent_name s) q]\<rparr>
      in case send_request env (events s) q of
           Inl e \<Rightarrow> (Inl e, s1)
         | Inr response_message \<Rightarrow>
             (case check_workflow env response_message of
                Inl e \<Rightarrow> (Inl e, s1)
              | Inr workflow \<Rightarrow>
                  (let s2 = s1\<lparr>rounds := rounds s1 + 1\<rparr>
                   in if truthy workflow then
                        (Inr workflow, update_status env ''workflow_generated'' s2)
                      else
                        plan_attempts env is
                          (s2\<lparr>messages := messages s2 @ [fail_notice i]\<rparr>))))"

definition automatic_workflow :: "env \<Rightarrow> state \<Rightarrow> (exn + step list option) \<times> state" where
  "automatic_workflow env s =
     (let s1 = update_status env ''generating_workflow'' s
      in case plan_attempts env [0..<plan_max_fail_times s1] s1 of
           (Inr (Some workflow), s2) \<Rightarrow> (Inr (Some workflow), s2)
         | (Inr None, s2) \<Rightarrow>
             (Inr None, update_status env ''workflow_generation_failed'' s2)
         | (Inl e, s2) \<Rightarrow>
             if is_Exception e then
               (case log_error env ''Error in automatic_workflow'' (Some e) s2 of
                  (Inl e', s3) \<Rightarrow> (Inl e', s3)
                | (Inr u, s3) \<Rightarrow> (Inr None, update_status env ''error'' s3))
             else (Inl e, s2))"

subsection \<open>run (lines 92-189)\<close>

text \<open>The body of the step loop, lines 140-163, for the step with index \<open>i\<close>.\<close>

definition execute_step :: "env \<Rightarrow> nat \<Rightarrow> step \<Rightarrow> state \<Rightarrow> (exn + unit) \<times> state" where
  "execute_step env i stp s =
     (let s1 = log_debug env (''Executing step '' @ str_nat (i + 1) @ '': '' @ action stp) s;
          prompt = ''At step '' @ str_nat (i + 1) @ '', you need to: '' @ action stp @ ''. '';
          s2 = s1\<lparr>messages := messages s1 @ [\<lparr>role = ''user'', content = prompt\<rparr>]\<rparr>;
          (selected, s3) =
            (if tool_use stp \<noteq> [] then
               (map_sum id Some (pre_select_tools env (events s2) (tool_use stp)),
                s2\<lparr>events := events s2 @ [PreSelectTools (tool_use stp)]\<rparr>)
             else (Inr None, s2))
      in case selected of
           Inl e \<Rightarrow> (Inl e, s3)
         | Inr selected_tools \<Rightarrow>
             (let q = \<lparr>q_messages = messages s3, q_tools = selected_tools,
                       q_action_type = Some (action_type stp),
                       q_message_return_type = None\<rparr>;
                  s4 = s3\<lparr>events := events s3 @ [SendRequest (agent_name s3) q]\<rparr>
              in case send_request env (events s3) q of
                   Inl e \<Rightarrow> (Inl e, s4)
                 | Inr response_message \<Rightarrow>
                     (Inr (), s4\<lparr>messages := messages s4 @
                                    [\<lparr>role = ''assistant'', content = response_message\<rparr>],
                                 rounds := rounds s4 + 1\<rparr>)))"

text \<open>\<^verbatim>\<open>for i, step in enumerate(workflow)\<close>, from index \<open>i\<close> on.\<close>

fun execute_steps :: "env \<Rightarrow> nat \<Rightarrow> step list \<Rightarrow> state \<Rightarrow> (exn + unit) \<times> state" where
  "execute_steps env i [] s = (Inr (), s)"
| "execute_steps env i (stp # rest) s =
     (case execute_step env i stp s of
        (Inl e, s') \<Rightarrow> (Inl e, s')
      | (Inr u, s') \<Rightarrow> execute_steps env (Suc i) rest s')"

text \<open>
  Lines 107-116: the task input is appended and the workflow obtained. When
  \<^verbatim>\<open>automatic_workflow\<close> raises, line 114 is not reached.
\<close>

definition obtain_workflow :: "env \<Rightarrow> state \<Rightarrow> (exn + step list option) \<times> state" where
  "obtain_workflow env s =
     (let s1 = s\<lparr>messages := messages s @ [\<lparr>role = ''user'', content = task_input s\<rparr>]\<rparr>
      in if workflow_mode s1 = ''automatic'' then
           (case automatic_workflow env s1 of
              (Inl e, s2) \<Rightarrow> (Inl e, s2)
            | (Inr workflow, s2) \<Rightarrow>
                (Inr workflow, s2\<lparr>messages := take 1 (messages s2)\<rparr>))
         else
           (case manual_workflow env s1 of
              (workflow, s2) \<Rightarrow> (Inr workflow, s2)))"

definition result_of :: "state \<Rightarrow> string \<Rightarrow> string option \<Rightarrow> run_result" where
  "result_of s text err =
     \<lparr>rr_agent_name = agent_name s, rr_result = Some text, rr_rounds = rounds s,
      rr_status = status s, rr_error = err, rr_debug_logs = debug_logs s\<rparr>"

text \<open>
  Lines 94-137, up to the step loop: \<open>Inl (Inl e)\<close> when these lines raise \<open>e\<close>,
  \<open>Inl (Inr r)\<close> when \<^verbatim>\<open>run\<close> returns \<open>r\<close> early, \<open>Inr w\<close> when the loop is entered
  with the workflow \<open>w\<close>.
\<close>

definition run_setup :: "env \<Rightarrow> state \<Rightarrow> ((exn + run_result) + step list) \<times> state" where
  "run_setup env s =
     (let s1 = update_status env ''running'' s;
          s2 = log_debug env (''Starting run with task: '' @ task_input s1) s1
      in case build_system_instruction env s2 of
           (Inl e, s3) \<Rightarrow> (Inl (Inl e), s3)
         | (Inr False, s3) \<Rightarrow>
             (Inl (Inr (result_of s3 ''Failed to build system instruction'' None)), s3)
         | (Inr True, s3) \<Rightarrow>
             (case obtain_workflow env s3 of
                (Inl e, s4) \<Rightarrow> (Inl (Inl e), s4)
              | (Inr workflow, s4) \<Rightarrow>
                  if \<not> truthy workflow then
                    (let s5 = update_status env ''failed'' s4
                     in (Inl (Inr (result_of s5 ''Failed to generate a valid workflow.'' None)),
                         s5))
                  else
                    (let w = the workflow;  \<comment> \<open>\<open>workflow\<close> is truthy, hence \<open>Some w\<close>\<close>
                         s5 = s4\<lparr>messages := messages s4 @
                                [\<lparr>role = ''user'',
                                  content = ''[Thinking]: The workflow generated for the problem is ''
                                    @ json_dumps_workflow env w
                                    @ ''. Follow the workflow to solve the problem step by step. ''\<rparr>]\<rparr>
                     in (Inr w, update_status env ''executing_workflow'' s5))))"

text \<open>The \<^verbatim>\<open>try\<close> block of \<^verbatim>\<open>run\<close>, lines 94-175; \<open>Inl e\<close> when it raises \<open>e\<close>.\<close>

definition run_body :: "env \<Rightarrow> state \<Rightarrow> (exn + run_result) \<times> state" where
  "run_body env s =
     (case run_setup env s of
        (Inl r, s1) \<Rightarrow> (r, s1)
      | (Inr workflow, s1) \<Rightarrow>
          (case execute_steps env 0 workflow s1 of
             (Inl e, s2) \<Rightarrow> (Inl e, s2)
           | (Inr u, s2) \<Rightarrow>
               (let final_result = content (last (messages s2));
                    s3 = update_status env ''completed'' s2
                in (Inr (result_of s3 final_result None), s3))))"

text \<open>
  \<^verbatim>\<open>run\<close> with its \<^verbatim>\<open>except Exception\<close> branch, lines 177-189: an exception that
  is not an \<^verbatim>\<open>Exception\<close> leaves \<^verbatim>\<open>run\<close>, and so does an exception that the branch
  itself raises while it logs.
\<close>

definition run :: "env \<Rightarrow> state \<Rightarrow> (exn + run_result) \<times> state" where
  "run env s =
     (case run_body env s of
        (Inr r, s') \<Rightarrow> (Inr r, s')
      | (Inl e, s') \<Rightarrow>
          if is_Exception e then
            (let s1 = update_status env ''error'' s'
             in case log_error env ''Error during execution'' (Some e) s1 of
                  (Inl e', s2) \<Rightarrow> (Inl e', s2)
                | (Inr u, s2) \<Rightarrow>
                    (Inr (result_of s2 (''Error occurred during execution: '' @ str_exn e)
                            (Some (str_exn e))), s2))
          else (Inl e, s'))"

subsection \<open>Notions used in the statements\<close>

text \<open>
  The messages and log entries that the methods append, the predicates that read the
  record of calls and the log, and the state that the \<^verbatim>\<open>except\<close> branch of
  \<^verbatim>\<open>run\<close> leaves.
\<close>

text \<open>The prompt of the step with index \<open>i\<close> (line 145).\<close>

definition step_prompt :: "nat \<Rightarrow> step \<Rightarrow> message" where
  "step_prompt i stp =
     \<lparr>role = ''user'',
      content = ''At step '' @ str_nat (i + 1) @ '', you need to: '' @ action stp @ ''. ''\<rparr>"

text \<open>The message that presents the workflow (lines 129-134).\<close>

definition workflow_message :: "env \<Rightarrow> step list \<Rightarrow> message" where
  "workflow_message env w =
     \<lparr>role = ''user'',
      content = ''[Thinking]: The workflow generated for the problem is ''
                  @ json_dumps_workflow env w
                  @ ''. Follow the workflow to solve the problem step by step. ''\<rparr>"

text \<open>The system message (lines 194 and 221) and the task message (line 108).\<close>

definition system_message :: "string list \<Rightarrow> message" where
  "system_message description = \<lparr>role = ''system'', content = concat description\<rparr>"

definition task_message :: "state \<Rightarrow> message" where
  "task_message s = \<lparr>role = ''user'', content = task_input s\<rparr>"

text \<open>The calls that are language-model requests.\<close>

fun is_request :: "event \<Rightarrow> bool" where
  "is_request (SendRequest name q) = True"
| "is_request (PreSelectTools names) = False"

text \<open>The log entries that \<^verbatim>\<open>_update_status\<close> writes, and their messages in log order.\<close>

definition is_status_change :: "log_entry \<Rightarrow> bool" where
  "is_status_change e = prefix ''Status changed: '' (le_message e)"

definition status_changes :: "log_entry list \<Rightarrow> string list" where
  "status_changes logs = map le_message (filter is_status_change logs)"

text \<open>
  Lines 178-179 when the console accepts the error lines: the status becomes
  \<^verbatim>\<open>error\<close> and the exception is logged.
\<close>

definition run_failed :: "env \<Rightarrow> exn \<Rightarrow> state \<Rightarrow> state" where
  "run_failed env e s =
     error_logged env ''Error during execution'' (Some e) (update_status env ''error'' s)"

text \<open>
  What \<^verbatim>\<open>run\<close> does with an exception \<open>e\<close> that its \<^verbatim>\<open>try\<close> block raises in state
  \<open>s\<close>: the failure result, the exception of the \<^verbatim>\<open>print\<close> that rejects an error
  line, or \<open>e\<close> itself when it is not an \<^verbatim>\<open>Exception\<close>.
\<close>

definition handled :: "env \<Rightarrow> exn \<Rightarrow> state \<Rightarrow> (exn + run_result) \<times> state" where
  "handled env e s =
     (if is_Exception e then
        (case print_all env (error_lines env ''Error during execution'' (Some e)) of
           None \<Rightarrow>
             (Inr (result_of (run_failed env e s)
                     (''Error occurred during execution: '' @ str_exn e) (Some (str_exn e))),
              run_failed env e s)
         | Some e' \<Rightarrow>
             (Inl e', (update_status env ''error'' s)\<lparr>clock := Suc (Suc (clock s))\<rparr>))
      else (Inl e, s))"

subsection \<open>Example environments and agents\<close>

text \<open>
  \<open>demo_env\<close> answers every request, rejects every plan and prints every line;
  \<open>accepting_env\<close> accepts every plan; in \<open>flaky_env\<close> the second request raises an
  \<^verbatim>\<open>Exception\<close>, in \<open>interrupted_env\<close> it raises \<^verbatim>\<open>KeyboardInterrupt\<close>;
  \<open>unconfigured_env\<close> has no \<^verbatim>\<open>description\<close>; \<open>unserializable_env\<close> cannot render
  a status snapshot; in \<open>closed_console_env\<close> every \<^verbatim>\<open>print\<close> raises, and
  \<open>flaky_closed_env\<close> is \<open>flaky_env\<close> with that console; in
  \<open>interrupted_status_env\<close> rendering a snapshot raises \<^verbatim>\<open>KeyboardInterrupt\<close>.
  \<open>demo_agent\<close> is
  a newly constructed agent, \<open>automatic_agent\<close> the same agent switched to automatic
  mode.
\<close>

definition demo_description :: "string list" where
  "demo_description = [''You are an expert who is good at solving mathematical problems. '']"

definition demo_env :: env where
  "demo_env =
     \<lparr>config = [''description'' \<mapsto> demo_description],
      tool_info_json = Inr ''[]'',
      send_request = (\<lambda>h q. Inr ''x = 2 or x = -2''),
      pre_select_tools = (\<lambda>h names. Inr names),
      check_workflow = (\<lambda>text. Inr None),
      json_dumps_workflow = (\<lambda>w. ''[...]''),
      json_dumps_status = (\<lambda>info. Inr ''{...}''),
      now = (\<lambda>n. ''2024-01-01T00:00:00''),
      format_exc = (\<lambda>e. ''Traceback (most recent call last): ...''),
      print = (\<lambda>text. None)\<rparr>"

definition demo_agent :: state where
  "demo_agent = MathAgent_init demo_env ''math_agent'' ''Solve x^2 - 4 = 0''"

definition automatic_agent :: state where
  "automatic_agent = demo_agent\<lparr>workflow_mode := ''automatic''\<rparr>"

definition solve_step :: step where
  "solve_step = \<lparr>action_type = ''chat'', action = ''Solve the equation'', tool_use = []\<rparr>"

definition accepting_env :: env where
  "accepting_env = demo_env\<lparr>check_workflow := (\<lambda>text. Inr (Some [solve_step]))\<rparr>"







definition unconfigured_env :: env where
  "unconfigured_env = demo_env\<lparr>config := Map.empty\<rparr>"


section \<open>Properties\<close>

subsection \<open>Fields left alone by logging\<close>

lemma log_debug_fields [simp]:
  "agent_name (log_debug env m s) = agent_name s"
  "task_input (log_debug env m s) = task_input s"
  "plan_max_fail_times (log_debug env m s) = plan_max_fail_times s"
  "messages (log_debug env m s) = messages s"
  "workflow_mode (log_debug env m s) = workflow_mode s"
  "rounds (log_debug env m s) = rounds s"
  "status (log_debug env m s) = status s"
  "events (log_debug env m s) = events s"
  "clock (log_debug env m s) = Suc (clock s)"
  "debug_logs (log_debug env m s) = debug_logs s @ [debug_entry env (clock s) m]"
  by (simp_all add: log_debug_def)

lemma error_logged_fields [simp]:
  "agent_name (error_logged env m err s) = agent_name s"
  "task_input (error_logged env m err s) = task_input s"
  "plan_max_fail_times (error_logged env m err s) = plan_max_fail_times s"
  "messages (error_logged env m err s) = messages s"
  "workflow_mode (error_logged env m err s) = workflow_mode s"
  "rounds (error_logged env m err s) = rounds s"
  "status (error_logged env m err s) = status s"
  "events (error_logged env m err s) = events s"
  "clock (error_logged env m err s) = Suc (clock s)"
  "debug_logs (error_logged env m err s) = debug_logs s @ [error_entry env (clock s) m err]"
  by (simp_all add: error_logged_def)

lemma log_error_Inr:
  assumes "log_error env m err s = (Inr u, s')"
  shows "print_all env (error_lines env m err) = None" and "s' = error_logged env m err s"
  using assms by (auto simp: log_error_def split: option.splits)

lemma log_error_Inl:
  assumes "log_error env m err s = (Inl e, s')"
  shows "print_all env (error_lines env m err) = Some e" and "s' = s\<lparr>clock := Suc (clock s)\<rparr>"
  using assms by (auto simp: log_error_def split: option.splits)



lemma log_error_frame:
  assumes "log_error env m err s = (r, s')"
  shows "agent_name s' = agent_name s" and "messages s' = messages s"
    and "workflow_mode s' = workflow_mode s" and "rounds s' = rounds s"
    and "status s' = status s" and "events s' = events s"
    and "prefix (debug_logs s) (debug_logs s')"
  using assms by (auto simp: log_error_def split: option.splits)

lemma update_status_fields [simp]:
  "agent_name (update_status env n s) = agent_name s"
  "task_input (update_status env n s) = task_input s"
  "plan_max_fail_times (update_status env n s) = plan_max_fail_times s"
  "messages (update_status env n s) = messages s"
  "workflow_mode (update_status env n s) = workflow_mode s"
  "rounds (update_status env n s) = rounds s"
  "status (update_status env n s) = n"
  "events (update_status env n s) = events s"
  "clock (update_status env n s) = Suc (clock s)"
  "debug_logs (update_status env n s) =
     debug_logs s @ [debug_entry env (clock s) (''Status changed: '' @ status s @ '' -> '' @ n)]"
  by (simp_all add: update_status_def)

lemma run_failed_fields [simp]:
  "agent_name (run_failed env e s) = agent_name s"
  "messages (run_failed env e s) = messages s"
  "rounds (run_failed env e s) = rounds s"
  "status (run_failed env e s) = ''error''"
  "events (run_failed env e s) = events s"
  "debug_logs (run_failed env e s) = debug_logs s @
     [debug_entry env (clock s) (''Status changed: '' @ status s @ '' -> error''),
      error_entry env (Suc (clock s)) ''Error during execution'' (Some e)]"
  by (simp_all add: run_failed_def)

lemma result_of_fields [simp]:
  "rr_agent_name (result_of s t err) = agent_name s"
  "rr_result (result_of s t err) = Some t"
  "rr_rounds (result_of s t err) = rounds s"
  "rr_status (result_of s t err) = status s"
  "rr_error (result_of s t err) = err"
  "rr_debug_logs (result_of s t err) = debug_logs s"
  by (simp_all add: result_of_def)

lemma le_message_debug_entry [simp]: "le_message (debug_entry env t m) = m"
  by (simp add: debug_entry_def)

lemma is_status_change_debug_entry [simp]:
  "is_status_change (debug_entry env t m) = prefix ''Status changed: '' m"
  by (simp add: is_status_change_def debug_entry_def)

lemma is_status_change_error_entry [simp]:
  "is_status_change (error_entry env t m err) = prefix ''Status changed: '' m"
  by (simp add: is_status_change_def error_entry_def)

subsection \<open>Lists\<close>

lemma upt_Suc_map: "[0..<Suc n] = 0 # map Suc [0..<n]"
  unfolding map_Suc_upt by (rule upt_conv_Cons) simp

lemma upt_0_3: "[0..<3] = [0, 1, 2::nat]"
  by (simp add: upt_conv_Cons)

lemma prefix_app_trans: "prefix (xs @ zs) ys \<Longrightarrow> prefix xs ys"
  by (auto simp: prefix_def)

lemma take1_prefix:
  "xs \<noteq> [] \<Longrightarrow> prefix xs ys \<Longrightarrow> take 1 ys = take 1 xs"
  by (cases xs) (auto simp: prefix_def)

lemma take1_append_single: "take 1 (xs @ a # ys) = take 1 (xs @ [a])"
  by (cases xs) simp_all

subsection \<open>Planning\<close>

lemma plan_attempts_step:
  assumes "send_request env (events s) (plan_query (messages s)) = Inr r"
      and "check_workflow env r = Inr w" and "\<not> truthy w"
  shows "plan_attempts env (i # idxs) s =
           plan_attempts env idxs
             (s\<lparr>events := events s @ [SendRequest (agent_name s) (plan_query (messages s))],
                rounds := rounds s + 1,
                messages := messages s @ [fail_notice i]\<rparr>)"
  using assms by (simp add: Let_def)

lemma plan_attempts_rejected:
  assumes resp: "\<forall>h q. \<exists>r. send_request env h q = Inr r"
      and rej: "\<forall>r. \<exists>w. check_workflow env r = Inr w \<and> \<not> truthy w"
  shows "\<exists>s'. plan_attempts env idxs s = (Inr None, s') \<and>
           messages s' = messages s @ map fail_notice idxs \<and>
           rounds s' = rounds s + length idxs \<and>
           events s' = events s @
             map (\<lambda>k. SendRequest (agent_name s)
                        (plan_query (messages s @ map fail_notice (take k idxs))))
                 [0..<length idxs] \<and>
           status s' = status s \<and> debug_logs s' = debug_logs s \<and>
           agent_name s' = agent_name s \<and> clock s' = clock s"
proof (induction idxs arbitrary: s)
  case Nil
  show ?case by simp
next
  case (Cons i idxs)
  let ?q = "plan_query (messages s)"
  obtain r where r: "send_request env (events s) ?q = Inr r"
    using resp by blast
  obtain w where w: "check_workflow env r = Inr w" "\<not> truthy w"
    using rej by blast
  let ?s2 = "s\<lparr>events := events s @ [SendRequest (agent_name s) ?q],
               rounds := rounds s + 1,
               messages := messages s @ [fail_notice i]\<rparr>"
  have step: "plan_attempts env (i # idxs) s = plan_attempts env idxs ?s2"
    using r w by (rule plan_attempts_step)
  from Cons.IH [of ?s2] obtain s' where
    s': "plan_attempts env idxs ?s2 = (Inr None, s')"
        "messages s' = messages ?s2 @ map fail_notice idxs"
        "rounds s' = rounds ?s2 + length idxs"
        "events s' = events ?s2 @
             map (\<lambda>k. SendRequest (agent_name ?s2)
                        (plan_query (messages ?s2 @ map fail_notice (take k idxs))))
                 [0..<length idxs]"
        "status s' = status ?s2" "debug_logs s' = debug_logs ?s2"
        "agent_name s' = agent_name ?s2" "clock s' = clock ?s2"
    by blast
  have ev: "events s' = events s @
             map (\<lambda>k. SendRequest (agent_name s)
                        (plan_query (messages s @ map fail_notice (take k (i # idxs)))))
                 [0..<length (i # idxs)]"
    using s'(4) by (simp add: upt_Suc_map comp_def del: upt_Suc)
  show ?case
    unfolding step using s'(1,2,3,5,6,7,8) ev by simp
qed

lemma automatic_workflow_rejected:
  assumes resp: "\<forall>h q. \<exists>r. send_request env h q = Inr r"
      and rej: "\<forall>r. \<exists>w. check_workflow env r = Inr w \<and> \<not> truthy w"
  shows "fst (automatic_workflow env s) = Inr None"
    and "status (snd (automatic_workflow env s)) = ''workflow_generation_failed'' \<and>
         rounds (snd (automatic_workflow env s)) = rounds s + plan_max_fail_times s \<and>
         messages (snd (automatic_workflow env s)) =
           messages s @ map fail_notice [0..<plan_max_fail_times s] \<and>
         events (snd (automatic_workflow env s)) =
           events s @
             map (\<lambda>k. SendRequest (agent_name s)
                        (plan_query (messages s @ map fail_notice [0..<k])))
                 [0..<plan_max_fail_times s]"
proof -
  let ?n = "plan_max_fail_times s"
  let ?s1 = "update_status env ''generating_workflow'' s"
  from plan_attempts_rejected [OF resp rej, of "[0..<?n]" ?s1]
  obtain s' where
    s': "plan_attempts env [0..<?n] ?s1 = (Inr None, s')"
        "messages s' = messages ?s1 @ map fail_notice [0..<?n]"
        "rounds s' = rounds ?s1 + length [0..<?n]"
        "events s' = events ?s1 @
             map (\<lambda>k. SendRequest (agent_name ?s1)
                        (plan_query (messages ?s1 @ map fail_notice (take k [0..<?n]))))
                 [0..<length [0..<?n]]"
    by blast
  have res: "automatic_workflow env s =
               (Inr None, update_status env ''workflow_generation_failed'' s')"
    using s'(1) by (simp add: automatic_workflow_def Let_def)
  have tk: "map (\<lambda>k. SendRequest (agent_name s)
                        (plan_query (messages s @ map fail_notice (take k [0..<?n]))))
                 [0..<?n] =
            map (\<lambda>k. SendRequest (agent_name s)
                        (plan_query (messages s @ map fail_notice [0..<k])))
                 [0..<?n]"
    by (rule map_cong) (simp_all add: take_upt)
  show "fst (automatic_workflow env s) = Inr None"
    unfolding res by simp
  show "status (snd (automatic_workflow env s)) = ''workflow_generation_failed'' \<and>
         rounds (snd (automatic_workflow env s)) = rounds s + plan_max_fail_times s \<and>
         messages (snd (automatic_workflow env s)) =
           messages s @ map fail_notice [0..<plan_max_fail_times s] \<and>
         events (snd (automatic_workflow env s)) =
           events s @
             map (\<lambda>k. SendRequest (agent_name s)
                        (plan_query (messages s @ map fail_notice [0..<k])))
                 [0..<plan_max_fail_times s]"
    unfolding res using s'(2,3,4) tk by simp
qed

lemma plan_attempts_frame:
  "plan_attempts env idxs s = (r, s') \<Longrightarrow>
     prefix (messages s) (messages s') \<and> agent_name s' = agent_name s"
proof (induction idxs arbitrary: s)
  case Nil
  then show ?case by simp
next
  case (Cons i idxs)
  show ?case
  proof (cases "send_request env (events s) (plan_query (messages s))")
    case (Inl e)
    with Cons.prems show ?thesis by (auto simp: Let_def)
  next
    case (Inr resp)
    note sr = this
    show ?thesis
    proof (cases "check_workflow env resp")
      case (Inl e)
      with sr Cons.prems show ?thesis by (auto simp: Let_def)
    next
      case (Inr w)
      show ?thesis
      proof (cases "truthy w")
        case True
        with sr Inr Cons.prems show ?thesis by (auto simp: Let_def)
      next
        case False
        let ?s2 = "s\<lparr>events := events s @ [SendRequest (agent_name s) (plan_query (messages s))],
                     rounds := rounds s + 1,
                     messages := messages s @ [fail_notice i]\<rparr>"
        have "plan_attempts env idxs ?s2 = (r, s')"
          using Cons.prems plan_attempts_step [OF sr Inr False, of i idxs] by simp
        from Cons.IH [OF this]
        have "prefix (messages s @ [fail_notice i]) (messages s')" "agent_name s' = agent_name s"
          by simp_all
        then show ?thesis
          by (blast intro: prefix_app_trans)
      qed
    qed
  qed
qed

lemma automatic_workflow_frame:
  "prefix (messages s) (messages (snd (automatic_workflow env s)))"
  "agent_name (snd (automatic_workflow env s)) = agent_name s"
proof -
  let ?s1 = "update_status env ''generating_workflow'' s"
  obtain r s' where p: "plan_attempts env [0..<plan_max_fail_times ?s1] ?s1 = (r, s')"
    by (cases "plan_attempts env [0..<plan_max_fail_times ?s1] ?s1")
  from plan_attempts_frame [OF p]
  have f: "prefix (messages s) (messages s')" "agent_name s' = agent_name s"
    by simp_all
  show "prefix (messages s) (messages (snd (automatic_workflow env s)))"
    using p f(1)
    by (auto simp: automatic_workflow_def Let_def
             split: sum.splits option.splits prod.splits dest: log_error_frame(2))
  show "agent_name (snd (automatic_workflow env s)) = agent_name s"
    using p f(2)
    by (auto simp: automatic_workflow_def Let_def
             split: sum.splits option.splits prod.splits dest: log_error_frame(1))
qed


lemma obtain_workflow_messages:
  "workflow_mode s \<noteq> ''automatic'' \<Longrightarrow>
     prefix (messages s) (messages (snd (obtain_workflow env s)))"
  by (simp add: obtain_workflow_def manual_workflow_def Let_def)

lemma obtain_workflow_automatic:
  assumes "workflow_mode s = ''automatic''" and "obtain_workflow env s = (Inr w, s')"
  shows "messages s' =
           take 1 (messages s @ [\<lparr>role = ''user'', content = task_input s\<rparr>])"
proof -
  let ?s1 = "s\<lparr>messages := messages s @ [\<lparr>role = ''user'', content = task_input s\<rparr>]\<rparr>"
  have "prefix (messages ?s1) (messages (snd (automatic_workflow env ?s1)))"
    by (rule automatic_workflow_frame)
  then have "take 1 (messages (snd (automatic_workflow env ?s1))) = take 1 (messages ?s1)"
    by (intro take1_prefix) simp_all
  then show ?thesis
    using assms by (auto simp: obtain_workflow_def Let_def split: prod.splits sum.splits)
qed

lemma obtain_workflow_automatic_fst:
  assumes "workflow_mode s = ''automatic''"
      and "fst (automatic_workflow env
                 (s\<lparr>messages := messages s @ [\<lparr>role = ''user'', content = task_input s\<rparr>]\<rparr>)) =
           Inr w"
  shows "fst (obtain_workflow env s) = Inr w"
proof -
  let ?s1 = "s\<lparr>messages := messages s @ [\<lparr>role = ''user'', content = task_input s\<rparr>]\<rparr>"
  obtain r s2 where a: "automatic_workflow env ?s1 = (r, s2)"
    by (cases "automatic_workflow env ?s1")
  with assms(2) have "r = Inr w" by simp
  with a assms(1) show ?thesis
    by (simp add: obtain_workflow_def Let_def)
qed

lemma obtain_workflow_manual:
  assumes "workflow_mode s \<noteq> ''automatic''"
  shows "obtain_workflow env s =
           (Inr (Some manual_steps),
            update_status env ''workflow_generated''
              (update_status env ''generating_workflow''
                 (s\<lparr>messages := messages s @ [task_message s]\<rparr>)))"
  using assms by (simp add: obtain_workflow_def manual_workflow_def Let_def task_message_def)

lemma build_failed_cases:
  assumes "build_failed env e s = (r, s')"
  shows "r \<noteq> Inr True"
    and "messages s' = messages s" and "workflow_mode s' = workflow_mode s"
    and "r = Inr False \<longrightarrow> is_Exception e \<and>
           s' = update_status env ''error''
                  (error_logged env ''Error in build_system_instruction'' (Some e) s)"
  using assms
  by (auto simp: build_failed_def split: if_splits prod.splits sum.splits
           dest: log_error_Inr(2) log_error_frame(2,3))

lemma build_system_instruction_True:
  assumes "build_system_instruction env s = (Inr True, s')"
  shows "\<exists>d t. config env ''description'' = Some d \<and> tool_info_json env = Inr t \<and>
           (workflow_mode s = ''manual'' \<or> workflow_mode s = ''automatic'') \<and>
           s' = update_status env ''system_instruction_built''
                  ((update_status env ''building_system_instruction'' s)
                     \<lparr>messages := messages s @
                        (if workflow_mode s = ''manual''
                         then [\<lparr>role = ''system'', content = concat d\<rparr>]
                         else [\<lparr>role = ''system'', content = concat d\<rparr>,
                               \<lparr>role = ''user'', content = plan_instruction t\<rparr>])\<rparr>)"
  using assms
  by (auto simp: build_system_instruction_def Let_def
           split: option.splits sum.splits if_splits dest: build_failed_cases(1))

lemma build_system_instruction_failed:
  assumes "build_system_instruction env s = (r, s')" and "r \<noteq> Inr True"
  shows "\<exists>e. build_failed env e (update_status env ''building_system_instruction'' s) = (r, s')"
  using assms
  by (auto simp: build_system_instruction_def Let_def
           split: option.splits sum.splits if_splits)

lemma build_system_instruction_other:
  assumes "build_system_instruction env s = (r, s')" and "r \<noteq> Inr True"
  shows "messages s' = messages s" and "workflow_mode s' = workflow_mode s"
    and "r = Inr False \<longrightarrow>
           (\<exists>e. is_Exception e \<and>
                s' = update_status env ''error''
                       (error_logged env ''Error in build_system_instruction'' (Some e)
                          (update_status env ''building_system_instruction'' s)))"
proof -
  from build_system_instruction_failed [OF assms] obtain e where
    f: "build_failed env e (update_status env ''building_system_instruction'' s) = (r, s')"
    by blast
  from build_failed_cases(2) [OF f] show "messages s' = messages s" by simp
  from build_failed_cases(3) [OF f] show "workflow_mode s' = workflow_mode s" by simp
  from build_failed_cases(4) [OF f]
  show "r = Inr False \<longrightarrow>
           (\<exists>e. is_Exception e \<and>
                s' = update_status env ''error''
                       (error_logged env ''Error in build_system_instruction'' (Some e)
                          (update_status env ''building_system_instruction'' s)))"
    by blast
qed

lemma planning_truncates:
  assumes mode: "workflow_mode s0 = ''automatic''"
      and built: "build_system_instruction env s0 = (Inr True, s)"
      and planned: "obtain_workflow env s = (Inr w, s')"
  shows "\<exists>d. config env ''description'' = Some d \<and>
           messages s' = take 1 (messages s0 @ [system_message d]) \<and>
           length (messages s') = 1 \<and>
           (messages s0 = [] \<longrightarrow>
              messages s' = [system_message d] \<and> task_message s \<notin> set (messages s'))"
proof -
  from build_system_instruction_True [OF built] obtain d t where
    d: "config env ''description'' = Some d" and
    s: "s = update_status env ''system_instruction_built''
                  ((update_status env ''building_system_instruction'' s0)
                     \<lparr>messages := messages s0 @
                        (if workflow_mode s0 = ''manual''
                         then [\<lparr>role = ''system'', content = concat d\<rparr>]
                         else [\<lparr>role = ''system'', content = concat d\<rparr>,
                               \<lparr>role = ''user'', content = plan_instruction t\<rparr>])\<rparr>)"
    by blast
  have ms: "messages s = messages s0 @ [system_message d, \<lparr>role = ''user'', content = plan_instruction t\<rparr>]"
    unfolding s using mode by (simp add: system_message_def)
  have am: "workflow_mode s = ''automatic''"
    unfolding s using mode by simp
  from obtain_workflow_automatic [OF am planned]
  have "messages s' = take 1 (messages s @ [\<lparr>role = ''user'', content = task_input s\<rparr>])" .
  also have "\<dots> = take 1 (messages s0 @ [system_message d])"
    unfolding ms using take1_append_single [of "messages s0" "system_message d"] by simp
  finally have m: "messages s' = take 1 (messages s0 @ [system_message d])" .
  have l: "length (messages s') = 1"
    unfolding m by (cases "messages s0") simp_all
  have "task_message s \<noteq> system_message d"
    by (simp add: task_message_def system_message_def)
  then have "messages s0 = [] \<longrightarrow>
              messages s' = [system_message d] \<and> task_message s \<notin> set (messages s')"
    unfolding m by simp
  with d m l show ?thesis by blast
qed

subsection \<open>The step loop\<close>

lemma execute_step_Inr:
  assumes "execute_step env i stp s = (Inr u, s')"
  shows "\<exists>r. messages s' = messages s @ [step_prompt i stp, \<lparr>role = ''assistant'', content = r\<rparr>]"
    and "rounds s' = Suc (rounds s)"
    and "status s' = status s"
    and "agent_name s' = agent_name s"
    and "workflow_mode s' = workflow_mode s"
    and "clock s' = Suc (clock s)"
    and "debug_logs s' = debug_logs s @
           [debug_entry env (clock s) (''Executing step '' @ str_nat (i + 1) @ '': '' @ action stp)]"
    and "length (filter is_request (events s')) = Suc (length (filter is_request (events s)))"
  using assms
  by (auto simp: execute_step_def Let_def step_prompt_def split: if_splits sum.splits)

lemma execute_step_Inl:
  assumes "execute_step env i stp s = (Inl e, s')"
  shows "messages s' = messages s @ [step_prompt i stp]"
    and "rounds s' = rounds s"
    and "status s' = status s"
    and "agent_name s' = agent_name s"
    and "clock s' = Suc (clock s)"
    and "debug_logs s' = debug_logs s @
           [debug_entry env (clock s) (''Executing step '' @ str_nat (i + 1) @ '': '' @ action stp)]"
  using assms
  by (auto simp: execute_step_def Let_def step_prompt_def split: if_splits sum.splits)




text \<open>Every exception of the loop is the exception of a first failing step.\<close>

lemma execute_steps_Inl_split:
  assumes "execute_steps env i w s = (Inl e, sf)"
  shows "\<exists>pre stp post sm. w = pre @ stp # post \<and>
           execute_steps env i pre s = (Inr (), sm) \<and>
           execute_step env (i + length pre) stp sm = (Inl e, sf)"
  using assms
proof (induction w arbitrary: i s)
  case Nil
  then show ?case by simp
next
  case (Cons stp rest)
  obtain r s' where st: "execute_step env i stp s = (r, s')"
    by (cases "execute_step env i stp s")
  show ?case
  proof (cases r)
    case (Inl e')
    with st Cons.prems have "execute_step env i stp s = (Inl e, sf)"
      by simp
    then have "stp # rest = [] @ stp # rest \<and>
           execute_steps env i [] s = (Inr (), s) \<and>
           execute_step env (i + length ([] :: step list)) stp s = (Inl e, sf)"
      by simp
    then show ?thesis by blast
  next
    case (Inr u)
    with st Cons.prems have "execute_steps env (Suc i) rest s' = (Inl e, sf)"
      by simp
    from Cons.IH [OF this] obtain pre x post sm where
      p: "rest = pre @ x # post" "execute_steps env (Suc i) pre s' = (Inr (), sm)"
         "execute_step env (Suc i + length pre) x sm = (Inl e, sf)"
      by blast
    have "stp # rest = (stp # pre) @ x # post \<and>
           execute_steps env i (stp # pre) s = (Inr (), sm) \<and>
           execute_step env (i + length (stp # pre)) x sm = (Inl e, sf)"
      using p st Inr by simp
    then show ?thesis by blast
  qed
qed


lemma execute_steps_any:
  assumes "execute_steps env i w s = (r, s')"
  shows "status s' = status s \<and> agent_name s' = agent_name s \<and>
         prefix (messages s) (messages s') \<and> rounds s \<le> rounds s' \<and>
         (\<exists>es. debug_logs s' = debug_logs s @ es \<and> filter is_status_change es = [])"
  using assms
proof (induction w arbitrary: i s)
  case Nil
  then show ?case by simp
next
  case (Cons stp rest)
  let ?entry = "debug_entry env (clock s) (''Executing step '' @ str_nat (i + 1) @ '': '' @ action stp)"
  have ne: "\<not> is_status_change ?entry"
    by simp
  obtain r1 sm where st: "execute_step env i stp s = (r1, sm)"
    by (cases "execute_step env i stp s")
  show ?case
  proof (cases r1)
    case (Inl e)
    with st Cons.prems have eq: "s' = sm" by simp
    note b = execute_step_Inl [OF st [unfolded Inl]]
    have "debug_logs s' = debug_logs s @ [?entry] \<and> filter is_status_change [?entry] = []"
      using b(6) ne eq by simp
    then have "\<exists>es. debug_logs s' = debug_logs s @ es \<and> filter is_status_change es = []"
      by blast
    moreover have "prefix (messages s) (messages s')"
      using b(1) eq by simp
    moreover have "status s' = status s" "agent_name s' = agent_name s" "rounds s \<le> rounds s'"
      using b(2,3,4) eq by simp_all
    ultimately show ?thesis by blast
  next
    case (Inr u')
    with st Cons.prems have rs: "execute_steps env (Suc i) rest sm = (r, s')" by simp
    note a = execute_step_Inr [OF st [unfolded Inr]]
    note ih = Cons.IH [OF rs]
    from a(1) obtain x where x: "messages sm = messages s @ [step_prompt i stp, \<lparr>role = ''assistant'', content = x\<rparr>]"
      by blast
    have p: "prefix (messages s) (messages s')"
      using ih unfolding x by (blast intro: prefix_app_trans)
    from ih obtain es where es: "debug_logs s' = debug_logs sm @ es" "filter is_status_change es = []"
      by blast
    have "debug_logs s' = debug_logs s @ (?entry # es) \<and> filter is_status_change (?entry # es) = []"
      using es a(7) ne by simp
    then have d: "\<exists>es. debug_logs s' = debug_logs s @ es \<and> filter is_status_change es = []"
      by blast
    have "status s' = status s" "agent_name s' = agent_name s" "rounds s \<le> rounds s'"
      using ih a(2,3,4) by simp_all
    then show ?thesis
      using p d by blast
  qed
qed

lemma execute_step_responsive:
  assumes "\<forall>h q. \<exists>r. send_request env h q = Inr r"
      and "\<forall>h n. \<exists>t. pre_select_tools env h n = Inr t"
  shows "fst (execute_step env i stp s) = Inr ()"
proof -
  let ?s2 = "(log_debug env (''Executing step '' @ str_nat (i + 1) @ '': '' @ action stp) s)
               \<lparr>messages := messages s @ [step_prompt i stp]\<rparr>"
  show ?thesis
  proof (cases "tool_use stp = []")
    case True
    let ?q = "\<lparr>q_messages = messages ?s2, q_tools = None,
               q_action_type = Some (action_type stp), q_message_return_type = None\<rparr>"
    from assms(1) obtain r where "send_request env (events ?s2) ?q = Inr r" by blast
    with True show ?thesis
      by (simp add: execute_step_def Let_def step_prompt_def)
  next
    case False
    from assms(2) obtain t where t: "pre_select_tools env (events ?s2) (tool_use stp) = Inr t"
      by blast
    let ?q = "\<lparr>q_messages = messages ?s2, q_tools = Some t,
               q_action_type = Some (action_type stp), q_message_return_type = None\<rparr>"
    from assms(1) obtain r where
      "send_request env (events ?s2 @ [PreSelectTools (tool_use stp)]) ?q = Inr r" by blast
    with False t show ?thesis
      by (simp add: execute_step_def Let_def step_prompt_def)
  qed
qed

lemma execute_steps_responsive:
  assumes "\<forall>h q. \<exists>r. send_request env h q = Inr r"
      and "\<forall>h n. \<exists>t. pre_select_tools env h n = Inr t"
  shows "fst (execute_steps env i w s) = Inr ()"
proof (induction w arbitrary: i s)
  case Nil
  show ?case by simp
next
  case (Cons stp rest)
  from execute_step_responsive [OF assms, of i stp s]
  obtain s' where "execute_step env i stp s = (Inr (), s')"
    by (cases "execute_step env i stp s") simp
  with Cons.IH [of "Suc i" s'] show ?case by simp
qed

subsection \<open>The phases of a run\<close>

lemma run_setup_Inl:
  assumes "run_setup env s = (Inl (Inr rr), s1)"
  shows "(rr = result_of s1 ''Failed to build system instruction'' None \<and> status s1 = ''error'') \<or>
         (rr = result_of s1 ''Failed to generate a valid workflow.'' None \<and> status s1 = ''failed'')"
proof -
  let ?s2 = "log_debug env (''Starting run with task: '' @ task_input s) (update_status env ''running'' s)"
  obtain b s3 where b: "build_system_instruction env ?s2 = (b, s3)"
    by (cases "build_system_instruction env ?s2")
  show ?thesis
  proof (cases "b = Inr True")
    case False
    from assms b False have bf: "b = Inr False" and rr: "rr = result_of s3 ''Failed to build system instruction'' None"
      and s13: "s1 = s3"
      by (auto simp: run_setup_def Let_def split: sum.splits bool.splits)
    from build_system_instruction_other(3) [OF b False] bf have "status s3 = ''error''"
      by auto
    with rr s13 show ?thesis by simp
  next
    case True
    obtain w s4 where w: "obtain_workflow env s3 = (w, s4)"
      by (cases "obtain_workflow env s3")
    with assms b True show ?thesis
      by (auto simp: run_setup_def Let_def split: if_splits sum.splits)
  qed
qed

lemma run_setup_Inr:
  assumes "run_setup env s = (Inr w, s1)"
  shows "\<exists>s3 s4. build_system_instruction env
            (log_debug env (''Starting run with task: '' @ task_input s)
               (update_status env ''running'' s)) = (Inr True, s3) \<and>
          obtain_workflow env s3 = (Inr (Some w), s4) \<and> w \<noteq> [] \<and>
          s1 = update_status env ''executing_workflow''
                 (s4\<lparr>messages := messages s4 @ [workflow_message env w]\<rparr>)"
proof -
  let ?s2 = "log_debug env (''Starting run with task: '' @ task_input s) (update_status env ''running'' s)"
  obtain b s3 where b: "build_system_instruction env ?s2 = (b, s3)"
    by (cases "build_system_instruction env ?s2")
  obtain ow s4 where ow: "obtain_workflow env s3 = (ow, s4)"
    by (cases "obtain_workflow env s3")
  from assms b have bt: "b = Inr True"
    by (auto simp: run_setup_def Let_def split: sum.splits bool.splits)
  from assms b ow bt obtain o' where o': "ow = Inr o'" and t: "truthy o'"
    by (auto simp: run_setup_def Let_def split: if_splits sum.splits)
  from t obtain x xs where x: "o' = Some (x # xs)"
    by (cases o' rule: truthy.cases) simp_all
  from assms b ow bt o' x show ?thesis
    by (auto simp: run_setup_def Let_def workflow_message_def)
qed

lemma run_setup_manual:
  assumes m: "workflow_mode s \<noteq> ''automatic''"
      and r: "run_setup env s = (Inr w, s1)"
  shows "w = manual_steps"
    and "\<exists>d. config env ''description'' = Some d \<and>
           messages s1 = messages s @
             [system_message d, task_message s, workflow_message env manual_steps]"
    and "rounds s1 = rounds s"
    and "events s1 = events s"
    and "agent_name s1 = agent_name s"
    and "status s1 = ''executing_workflow''"
    and "debug_logs s1 = debug_logs s @
           [debug_entry env (clock s) (''Status changed: '' @ status s @ '' -> running''),
            debug_entry env (clock s + 1) (''Starting run with task: '' @ task_input s),
            debug_entry env (clock s + 2) ''Status changed: running -> building_system_instruction'',
            debug_entry env (clock s + 3)
              ''Status changed: building_system_instruction -> system_instruction_built'',
            debug_entry env (clock s + 4)
              ''Status changed: system_instruction_built -> generating_workflow'',
            debug_entry env (clock s + 5)
              ''Status changed: generating_workflow -> workflow_generated'',
            debug_entry env (clock s + 6)
              ''Status changed: workflow_generated -> executing_workflow'']"
proof -
  let ?s2 = "log_debug env (''Starting run with task: '' @ task_input s) (update_status env ''running'' s)"
  from run_setup_Inr [OF r] obtain s3 s4 where
    b: "build_system_instruction env ?s2 = (Inr True, s3)" and
    ow: "obtain_workflow env s3 = (Inr (Some w), s4)" and
    s1: "s1 = update_status env ''executing_workflow''
                 (s4\<lparr>messages := messages s4 @ [workflow_message env w]\<rparr>)"
    by blast
  from build_system_instruction_True [OF b] obtain d t where
    d: "config env ''description'' = Some d" and
    mm: "workflow_mode ?s2 = ''manual'' \<or> workflow_mode ?s2 = ''automatic''" and
    s3: "s3 = update_status env ''system_instruction_built''
                  ((update_status env ''building_system_instruction'' ?s2)
                     \<lparr>messages := messages ?s2 @
                        (if workflow_mode ?s2 = ''manual''
                         then [\<lparr>role = ''system'', content = concat d\<rparr>]
                         else [\<lparr>role = ''system'', content = concat d\<rparr>,
                               \<lparr>role = ''user'', content = plan_instruction t\<rparr>])\<rparr>)"
    by blast
  from mm m have man: "workflow_mode s = ''manual''" by simp
  have m3: "workflow_mode s3 \<noteq> ''automatic''"
    using m s3 by simp
  note owm = obtain_workflow_manual [OF m3, of env]
  from ow owm show "w = manual_steps" by simp
  from ow owm have s4: "s4 = update_status env ''workflow_generated''
              (update_status env ''generating_workflow''
                 (s3\<lparr>messages := messages s3 @ [task_message s3]\<rparr>))"
    by simp
  have w: "w = manual_steps" using ow owm by simp
  have "messages s1 = messages s @
             [system_message d, task_message s, workflow_message env manual_steps]"
    unfolding s1 s4 s3 w using man by (simp add: system_message_def task_message_def)
  with d show "\<exists>d. config env ''description'' = Some d \<and>
           messages s1 = messages s @
             [system_message d, task_message s, workflow_message env manual_steps]"
    by blast
  show "rounds s1 = rounds s" unfolding s1 s4 s3 by simp
  show "events s1 = events s" unfolding s1 s4 s3 by simp
  show "agent_name s1 = agent_name s" unfolding s1 s4 s3 by simp
  show "status s1 = ''executing_workflow''" unfolding s1 by simp
  show "debug_logs s1 = debug_logs s @
           [debug_entry env (clock s) (''Status changed: '' @ status s @ '' -> running''),
            debug_entry env (clock s + 1) (''Starting run with task: '' @ task_input s),
            debug_entry env (clock s + 2) ''Status changed: running -> building_system_instruction'',
            debug_entry env (clock s + 3)
              ''Status changed: building_system_instruction -> system_instruction_built'',
            debug_entry env (clock s + 4)
              ''Status changed: system_instruction_built -> generating_workflow'',
            debug_entry env (clock s + 5)
              ''Status changed: generating_workflow -> workflow_generated'',
            debug_entry env (clock s + 6)
              ''Status changed: workflow_generated -> executing_workflow'']"
    unfolding s1 s4 s3 by (simp add: eval_nat_numeral)
qed

lemma run_setup_manual_Inl:
  assumes m: "workflow_mode s \<noteq> ''automatic''"
      and r: "run_setup env s = (Inl x, s1)"
  shows "messages s1 = messages s"
proof -
  let ?s2 = "log_debug env (''Starting run with task: '' @ task_input s) (update_status env ''running'' s)"
  obtain b s3 where b: "build_system_instruction env ?s2 = (b, s3)"
    by (cases "build_system_instruction env ?s2")
  show ?thesis
  proof (cases "b = Inr True")
    case False
    from build_system_instruction_other(1) [OF b False] have "messages s3 = messages s"
      by simp
    moreover from r b False have "s1 = s3"
      by (auto simp: run_setup_def Let_def split: sum.splits bool.splits)
    ultimately show ?thesis by simp
  next
    case True
    with b have bt: "build_system_instruction env ?s2 = (Inr True, s3)" by simp
    from build_system_instruction_True [OF bt] have "workflow_mode s3 = workflow_mode s"
      by auto
    with m have "workflow_mode s3 \<noteq> ''automatic''" by simp
    from obtain_workflow_manual [OF this, of env] r bt show ?thesis
      by (simp add: run_setup_def Let_def manual_steps_def)
  qed
qed

lemma run_setup_manual_reaches:
  assumes "workflow_mode s = ''manual''" and "config env ''description'' = Some d"
      and "tool_info_json env = Inr t"
  shows "fst (run_setup env s) = Inr manual_steps"
  using assms
  by (simp add: run_setup_def build_system_instruction_def obtain_workflow_def
        manual_workflow_def Let_def manual_steps_def)

lemma run_handled:
  assumes "run_body env s = (Inl e, s')"
  shows "run env s = handled env e s'"
  using assms
  by (simp add: run_def handled_def log_error_def run_failed_def Let_def split: option.splits)

lemma handled_frame:
  "messages (snd (handled env e s)) = messages s"
  "agent_name (snd (handled env e s)) = agent_name s"
  "rounds (snd (handled env e s)) = rounds s"
  by (simp_all add: handled_def split: option.splits)

lemma handled_Inr:
  assumes "handled env e s = (Inr rr, s')"
  shows "is_Exception e"
    and "print_all env (error_lines env ''Error during execution'' (Some e)) = None"
    and "s' = run_failed env e s"
    and "rr = result_of (run_failed env e s)
                (''Error occurred during execution: '' @ str_exn e) (Some (str_exn e))"
  using assms by (auto simp: handled_def split: if_splits option.splits)

lemma error_lines_Some:
  "error_lines env m (Some e) =
     [''[ERROR] '' @ m, ''[ERROR] Exception: '' @ str_exn e,
      ''[ERROR] Traceback:'' @ [CHR 0x0A] @ format_exc env e]"
  by (simp add: error_lines_def)


lemma handled_cases:
  assumes "handled env e s = (r, s')"
  shows "(\<exists>rr. r = Inr rr \<and> is_Exception e \<and> s' = run_failed env e s \<and>
               rr = result_of s' (''Error occurred during execution: '' @ str_exn e)
                      (Some (str_exn e))) \<or>
         (\<exists>e'. r = Inl e' \<and>
               (\<not> is_Exception e' \<or>
                (is_Exception e \<and>
                 print_all env
                   [''[ERROR] Error during execution'', ''[ERROR] Exception: '' @ str_exn e,
                    ''[ERROR] Traceback:'' @ [CHR 0x0A] @ format_exc env e] = Some e')))"
  using assms
  by (auto simp: handled_def error_lines_Some simp del: print_all.simps
           split: if_splits option.splits)

lemma handled_result:
  assumes "handled env e s = (r, s')"
  shows "(\<exists>rr. r = Inr rr \<and> rr_agent_name rr = agent_name s' \<and> rr_rounds rr = rounds s' \<and>
           rr_status rr = status s' \<and> rr_debug_logs rr = debug_logs s' \<and>
           (\<exists>t. rr_result rr = Some t) \<and>
           (rr_status rr \<noteq> ''completed'' \<longrightarrow>
              (rr_status rr = ''error'' \<and> rr_error rr = None \<and>
               rr_result rr = Some ''Failed to build system instruction'') \<or>
              (rr_status rr = ''failed'' \<and> rr_error rr = None \<and>
               rr_result rr = Some ''Failed to generate a valid workflow.'') \<or>
              (\<exists>e. rr_status rr = ''error'' \<and> rr_error rr = Some (str_exn e) \<and>
                   rr_result rr = Some (''Error occurred during execution: '' @ str_exn e)))) \<or>
         (\<exists>e'. r = Inl e' \<and>
            (\<not> is_Exception e' \<or>
             (\<exists>e. is_Exception e \<and>
                  print_all env
                    [''[ERROR] Error during execution'', ''[ERROR] Exception: '' @ str_exn e,
                     ''[ERROR] Traceback:'' @ [CHR 0x0A] @ format_exc env e] = Some e')))"
proof -
  from handled_cases [OF assms] consider
    (returned) rr where "r = Inr rr" "is_Exception e" "s' = run_failed env e s"
      "rr = result_of s' (''Error occurred during execution: '' @ str_exn e) (Some (str_exn e))"
  | (interrupted) e' where "r = Inl e'" "\<not> is_Exception e'"
  | (console) e' where "r = Inl e'" "is_Exception e"
      "print_all env
         [''[ERROR] Error during execution'', ''[ERROR] Exception: '' @ str_exn e,
          ''[ERROR] Traceback:'' @ [CHR 0x0A] @ format_exc env e] = Some e'"
    by blast
  then show ?thesis
  proof cases
    case returned
    have "rr_status rr = ''error''" "rr_error rr = Some (str_exn e)"
      "rr_result rr = Some (''Error occurred during execution: '' @ str_exn e)"
      "rr_agent_name rr = agent_name s'" "rr_rounds rr = rounds s'"
      "rr_status rr = status s'" "rr_debug_logs rr = debug_logs s'"
      unfolding returned(4) by (simp_all add: returned(3))
    with returned(1) show ?thesis by blast
  next
    case interrupted
    then show ?thesis by blast
  next
    case console
    then show ?thesis by blast
  qed
qed

lemma run_cases:
  obtains
    (early) rr s1 where "run_setup env s = (Inl (Inr rr), s1)" "run env s = (Inr rr, s1)"
  | (stopped) e s1 where "run_setup env s = (Inl (Inl e), s1)" "run env s = handled env e s1"
  | (raised) w s1 e s2 where "run_setup env s = (Inr w, s1)"
      "execute_steps env 0 w s1 = (Inl e, s2)"
      "run env s = handled env e s2"
  | (finished) w s1 u s2 where "run_setup env s = (Inr w, s1)"
      "execute_steps env 0 w s1 = (Inr u, s2)"
      "run env s =
         (Inr (result_of (update_status env ''completed'' s2)
                 (content (last (messages s2))) None),
          update_status env ''completed'' s2)"
proof -
  obtain r s1 where rs: "run_setup env s = (r, s1)"
    by (cases "run_setup env s")
  show thesis
  proof (cases r)
    case (Inl x)
    show thesis
    proof (cases x)
      case (Inr rr)
      with rs Inl have "run env s = (Inr rr, s1)"
        by (simp add: run_def run_body_def)
      with rs Inl Inr show thesis by (blast intro: early)
    next
      case (Inl e)
      with rs \<open>r = Inl x\<close> have "run_body env s = (Inl e, s1)"
        by (simp add: run_body_def)
      then have "run env s = handled env e s1"
        by (rule run_handled)
      with rs \<open>r = Inl x\<close> Inl show thesis by (blast intro: stopped)
    qed
  next
    case (Inr w)
    obtain x s2 where ex: "execute_steps env 0 w s1 = (x, s2)"
      by (cases "execute_steps env 0 w s1")
    show thesis
    proof (cases x)
      case (Inl e)
      with rs Inr ex have "run_body env s = (Inl e, s2)"
        by (simp add: run_body_def)
      then have "run env s = handled env e s2"
        by (rule run_handled)
      with rs Inr ex Inl show thesis by (blast intro: raised)
    next
      case (Inr u)
      with rs \<open>r = Inr w\<close> ex have "run env s =
         (Inr (result_of (update_status env ''completed'' s2)
                 (content (last (messages s2))) None),
          update_status env ''completed'' s2)"
        by (simp add: run_def run_body_def Let_def)
      with rs \<open>r = Inr w\<close> ex Inr show thesis by (blast intro: finished)
    qed
  qed
qed

lemma run_finished:
  assumes "run_setup env s = (Inr w, s1)" and "execute_steps env 0 w s1 = (Inr u, s2)"
  shows "run env s =
           (Inr (result_of (update_status env ''completed'' s2)
                   (content (last (messages s2))) None),
            update_status env ''completed'' s2)"
  using assms by (simp add: run_def run_body_def Let_def)


subsection \<open>The example environments\<close>

lemma demo_agent_fields [simp]:
  "agent_name demo_agent = ''math_agent''"
  "task_input demo_agent = ''Solve x^2 - 4 = 0''"
  "plan_max_fail_times demo_agent = 3"
  "messages demo_agent = []"
  "workflow_mode demo_agent = ''manual''"
  "rounds demo_agent = 0"
  "status demo_agent = ''initialized''"
  "events demo_agent = []"
  "length (debug_logs demo_agent) = 2"
  by (simp_all add: demo_agent_def MathAgent_init_def Let_def)

lemma automatic_agent_fields [simp]:
  "agent_name automatic_agent = ''math_agent''"
  "plan_max_fail_times automatic_agent = 3"
  "messages automatic_agent = []"
  "workflow_mode automatic_agent = ''automatic''"
  "rounds automatic_agent = 0"
  "events automatic_agent = []"
  by (simp_all add: automatic_agent_def)

lemma demo_env_responsive:
  "\<forall>h q. \<exists>r. send_request demo_env h q = Inr r"
  "\<forall>h n. \<exists>t. pre_select_tools demo_env h n = Inr t"
  by (simp_all add: demo_env_def)

lemma demo_env_rejects:
  "\<forall>r. \<exists>w. check_workflow demo_env r = Inr w \<and> \<not> truthy w"
  by (simp add: demo_env_def)

lemma demo_env_config [simp]:
  "config demo_env ''description'' = Some demo_description"
  "tool_info_json demo_env = Inr ''[]''"
  by (simp_all add: demo_env_def)

lemma demo_env_prints [simp]: "print demo_env text = None"
  by (simp add: demo_env_def)








lemma accepting_run_setup:
  "fst (run_setup accepting_env automatic_agent) = Inr [solve_step]"
  by (simp add: run_setup_def build_system_instruction_def obtain_workflow_def
        automatic_workflow_def accepting_env_def demo_env_def Let_def upt_0_3)

lemma unconfigured_run:
  "\<exists>rr. fst (run unconfigured_env demo_agent) = Inr rr"
  "status (snd (run unconfigured_env demo_agent)) = ''error''"
  by (simp_all add: run_def run_body_def run_setup_def build_system_instruction_def
        build_failed_def log_error_def error_lines_def unconfigured_env_def demo_env_def Let_def)

section \<open>The claims\<close>








text \<open>
  \<^bold>\<open>C4.\<close> In automatic mode, when a workflow is accepted, the conversation at the
  entry of the step loop is its first entry followed by the workflow message: the
  planning exchange is gone. In manual mode the conversation is never cut: the
  conversation at the start is a prefix of the one at the end of the run, and at the
  entry of the step loop it has grown by the system, task and workflow messages.
\<close>

theorem truncation_by_mode:
  "(workflow_mode s = ''automatic'' \<longrightarrow> run_setup env s = (Inr w, s1) \<longrightarrow>
      (\<exists>d. config env ''description'' = Some d \<and>
           messages s1 = take 1 (messages s @ [system_message d]) @ [workflow_message env w])) \<and>
   (workflow_mode s \<noteq> ''automatic'' \<longrightarrow>
      prefix (messages s) (messages (snd (run env s))) \<and>
      (run_setup env s = (Inr w, s1) \<longrightarrow>
         (\<exists>d. config env ''description'' = Some d \<and>
              messages s1 = messages s @
                [system_message d, task_message s, workflow_message env w])))"
proof (intro conjI impI)
  assume a: "workflow_mode s = ''automatic''" and r: "run_setup env s = (Inr w, s1)"
  let ?s2 = "log_debug env (''Starting run with task: '' @ task_input s) (update_status env ''running'' s)"
  from run_setup_Inr [OF r] obtain s3 s4 where
    b: "build_system_instruction env ?s2 = (Inr True, s3)" and
    ow: "obtain_workflow env s3 = (Inr (Some w), s4)" and
    s1: "s1 = update_status env ''executing_workflow''
                 (s4\<lparr>messages := messages s4 @ [workflow_message env w]\<rparr>)"
    by blast
  have "workflow_mode ?s2 = ''automatic''" using a by simp
  from planning_truncates [OF this b ow] obtain d where
    "config env ''description'' = Some d"
    "messages s4 = take 1 (messages ?s2 @ [system_message d])"
    by blast
  then show "\<exists>d. config env ''description'' = Some d \<and>
           messages s1 = take 1 (messages s @ [system_message d]) @ [workflow_message env w]"
    unfolding s1 by simp
next
  assume m: "workflow_mode s \<noteq> ''automatic''"
  show "prefix (messages s) (messages (snd (run env s)))"
  proof (cases rule: run_cases [of env s])
    case (early rr s1)
    with run_setup_manual_Inl [OF m early(1)] show ?thesis by simp
  next
    case (stopped e s1)
    with run_setup_manual_Inl [OF m stopped(1)] show ?thesis
      by (simp add: handled_frame)
  next
    case (raised w s1 e s2)
    from run_setup_manual(2) [OF m raised(1)] have "prefix (messages s) (messages s1)"
      by auto
    moreover from execute_steps_any [OF raised(2)] have "prefix (messages s1) (messages s2)"
      by blast
    ultimately have "prefix (messages s) (messages s2)"
      by (rule prefix_order.trans)
    with raised(3) show ?thesis by (simp add: handled_frame)
  next
    case (finished w s1 u s2)
    from run_setup_manual(2) [OF m finished(1)] have "prefix (messages s) (messages s1)"
      by auto
    moreover from execute_steps_any [OF finished(2)] have "prefix (messages s1) (messages s2)"
      by blast
    ultimately have "prefix (messages s) (messages s2)"
      by (rule prefix_order.trans)
    with finished(3) show ?thesis by simp
  qed
next
  assume m: "workflow_mode s \<noteq> ''automatic''" and r: "run_setup env s = (Inr w, s1)"
  from run_setup_manual(1,2) [OF m r]
  show "\<exists>d. config env ''description'' = Some d \<and>
              messages s1 = messages s @
                [system_message d, task_message s, workflow_message env w]"
    by simp
qed

theorem truncation_by_mode_witness:
  "workflow_mode automatic_agent = ''automatic'' \<and>
   fst (run_setup accepting_env automatic_agent) = Inr [solve_step] \<and>
   messages (snd (run_setup accepting_env automatic_agent)) =
     [system_message demo_description, workflow_message accepting_env [solve_step]] \<and>
   workflow_mode demo_agent \<noteq> ''automatic'' \<and>
   fst (run_setup demo_env demo_agent) = Inr manual_steps \<and>
   messages (snd (run_setup demo_env demo_agent)) =
     [system_message demo_description, task_message demo_agent,
      workflow_message demo_env manual_steps]"
proof -
  let ?sa = "snd (run_setup accepting_env automatic_agent)"
  let ?sm = "snd (run_setup demo_env demo_agent)"
  have ra: "run_setup accepting_env automatic_agent = (Inr [solve_step], ?sa)"
    using accepting_run_setup by (simp add: prod_eq_iff)
  have mode: "workflow_mode demo_agent = ''manual''" by simp
  have fm: "fst (run_setup demo_env demo_agent) = Inr manual_steps"
    by (rule run_setup_manual_reaches [OF mode]) simp_all
  then have rm: "run_setup demo_env demo_agent = (Inr manual_steps, ?sm)"
    by (simp add: prod_eq_iff)
  have ca: "config accepting_env ''description'' = Some demo_description"
    by (simp add: accepting_env_def)
  from truncation_by_mode [of automatic_agent accepting_env "[solve_step]" ?sa] ra ca
  have a: "messages ?sa =
     [system_message demo_description, workflow_message accepting_env [solve_step]]"
    by auto
  from truncation_by_mode [of demo_agent demo_env manual_steps ?sm] rm
  have b: "messages ?sm =
     [system_message demo_description, task_message demo_agent,
      workflow_message demo_env manual_steps]"
    by auto
  from a b accepting_run_setup fm show ?thesis by simp
qed

text \<open>
  \<^bold>\<open>C5.\<close> In automatic mode, right after the planning phase and whatever its
  outcome, the conversation is exactly its first entry; for an agent whose
  conversation was empty this is the system message, and the task message appended
  before planning is no longer in it.
\<close>

theorem automatic_planning_truncates:
  assumes "workflow_mode s0 = ''automatic''"
      and "build_system_instruction env s0 = (Inr True, s)"
      and "obtain_workflow env s = (Inr w, s')"
  shows "\<exists>d. config env ''description'' = Some d \<and>
           messages s' = take 1 (messages s0 @ [system_message d]) \<and>
           length (messages s') = 1 \<and>
           (messages s0 = [] \<longrightarrow>
              messages s' = [system_message d] \<and> task_message s \<notin> set (messages s'))"
  using assms by (rule planning_truncates)

theorem automatic_planning_truncates_witness:
  "workflow_mode automatic_agent = ''automatic'' \<and>
   fst (build_system_instruction demo_env automatic_agent) = Inr True \<and>
   fst (obtain_workflow demo_env
          (snd (build_system_instruction demo_env automatic_agent))) = Inr None \<and>
   messages (snd (obtain_workflow demo_env
                    (snd (build_system_instruction demo_env automatic_agent)))) =
     [system_message demo_description]"
proof -
  let ?s = "snd (build_system_instruction demo_env automatic_agent)"
  have mode: "workflow_mode automatic_agent = ''automatic''" by simp
  have bf: "fst (build_system_instruction demo_env automatic_agent) = Inr True"
    by (simp add: build_system_instruction_def Let_def)
  then have built: "build_system_instruction demo_env automatic_agent = (Inr True, ?s)"
    by (simp add: prod_eq_iff)
  from build_system_instruction_True [OF built] have am: "workflow_mode ?s = ''automatic''"
    by auto
  have pf: "fst (obtain_workflow demo_env ?s) = Inr None"
    using am automatic_workflow_rejected(1) [OF demo_env_responsive(1) demo_env_rejects]
    by (rule obtain_workflow_automatic_fst)
  then have planned: "obtain_workflow demo_env ?s = (Inr None, snd (obtain_workflow demo_env ?s))"
    by (simp add: prod_eq_iff)
  from automatic_planning_truncates [OF mode built planned] bf pf
  show ?thesis by auto
qed

text \<open>
  \<^bold>\<open>C6.\<close> The claim says that a failing run returns no \<open>result\<close>. The code sets
  \<open>result\<close> on every return, so the property proved is: a result that \<^verbatim>\<open>run\<close>
  returns has the \<open>agent_name\<close>, \<open>rounds\<close>, \<open>status\<close> and \<open>debug_logs\<close> of the final
  state and a \<open>result\<close>; on failure \<open>result\<close> is one of the three failure texts, and
  \<open>error\<close> is present exactly when an exception reached the top-level handler.
  (\<^verbatim>\<open>run\<close> returns unless it raises an exception that is not an \<^verbatim>\<open>Exception\<close> or
  that a \<^verbatim>\<open>print\<close> of the top-level handler raised.)
\<close>

theorem failed_run_result:
  assumes run: "run env s = (r, s')"
  shows "(\<exists>rr. r = Inr rr \<and> rr_agent_name rr = agent_name s' \<and> rr_rounds rr = rounds s' \<and>
           rr_status rr = status s' \<and> rr_debug_logs rr = debug_logs s' \<and>
           (\<exists>t. rr_result rr = Some t) \<and>
           (rr_status rr \<noteq> ''completed'' \<longrightarrow>
              (rr_status rr = ''error'' \<and> rr_error rr = None \<and>
               rr_result rr = Some ''Failed to build system instruction'') \<or>
              (rr_status rr = ''failed'' \<and> rr_error rr = None \<and>
               rr_result rr = Some ''Failed to generate a valid workflow.'') \<or>
              (\<exists>e. rr_status rr = ''error'' \<and> rr_error rr = Some (str_exn e) \<and>
                   rr_result rr = Some (''Error occurred during execution: '' @ str_exn e)))) \<or>
         (\<exists>e'. r = Inl e' \<and>
            (\<not> is_Exception e' \<or>
             (\<exists>e. is_Exception e \<and>
                  print_all env
                    [''[ERROR] Error during execution'', ''[ERROR] Exception: '' @ str_exn e,
                     ''[ERROR] Traceback:'' @ [CHR 0x0A] @ format_exc env e] = Some e')))"
proof (cases rule: run_cases [of env s])
  case (early rr s1)
  with run have r: "r = Inr rr" "s' = s1" by simp_all
  from run_setup_Inl [OF early(1)] show ?thesis
    unfolding r by auto
next
  case (stopped e s1)
  with run have "handled env e s1 = (r, s')" by simp
  then show ?thesis by (rule handled_result)
next
  case (raised w s1 e s2)
  with run have "handled env e s2 = (r, s')" by simp
  then show ?thesis by (rule handled_result)
next
  case (finished w s1 u s2)
  with run show ?thesis by auto
qed

theorem failed_run_result_witness:
  "\<exists>rr. fst (run unconfigured_env demo_agent) = Inr rr \<and> rr_status rr \<noteq> ''completed'' \<and>
      ((rr_status rr = ''error'' \<and> rr_error rr = None \<and>
        rr_result rr = Some ''Failed to build system instruction'') \<or>
       (rr_status rr = ''failed'' \<and> rr_error rr = None \<and>
        rr_result rr = Some ''Failed to generate a valid workflow.'') \<or>
       (\<exists>e. rr_status rr = ''error'' \<and> rr_error rr = Some (str_exn e) \<and>
            rr_result rr = Some (''Error occurred during execution: '' @ str_exn e)))"
proof -
  have "run unconfigured_env demo_agent =
          (fst (run unconfigured_env demo_agent), snd (run unconfigured_env demo_agent))"
    by simp
  from failed_run_result [OF this] unconfigured_run
  show ?thesis by auto
qed

text \<open>
  \<^bold>\<open>C6\<close> as stated fails: a run that cannot build the system instruction ends with
  status \<^verbatim>\<open>error\<close> and a \<open>result\<close> text.
\<close>

theorem result_absent_on_failure_counterexample:
  "fst (run unconfigured_env demo_agent) =
     Inr \<lparr>rr_agent_name = ''math_agent'',
          rr_result = Some ''Failed to build system instruction'',
          rr_rounds = 0,
          rr_status = ''error'',
          rr_error = None,
          rr_debug_logs = debug_logs (snd (run unconfigured_env demo_agent))\<rparr>"
  by (simp add: run_def run_body_def run_setup_def build_system_instruction_def
        build_failed_def log_error_def error_lines_def unconfigured_env_def demo_env_def
        Let_def result_of_def)

text \<open>
  \<^bold>\<open>C7.\<close> For a successful manual-mode run of a new agent (status
  \<^verbatim>\<open>initialized\<close>), the status changes logged during the run, in log order, are
  exactly the seven transitions from \<^verbatim>\<open>initialized\<close> to \<^verbatim>\<open>completed\<close>.
\<close>

theorem manual_run_status_trace:
  assumes mode: "workflow_mode s = ''manual''"
      and init: "status s = ''initialized''"
      and run: "run env s = (Inr rr, s')"
      and completed: "rr_status rr = ''completed''"
  shows "status_changes (drop (length (debug_logs s)) (rr_debug_logs rr)) =
           [''Status changed: initialized -> running'',
            ''Status changed: running -> building_system_instruction'',
            ''Status changed: building_system_instruction -> system_instruction_built'',
            ''Status changed: system_instruction_built -> generating_workflow'',
            ''Status changed: generating_workflow -> workflow_generated'',
            ''Status changed: workflow_generated -> executing_workflow'',
            ''Status changed: executing_workflow -> completed'']"
proof (cases rule: run_cases [of env s])
  case (early rr' s1)
  with run have rr: "rr' = rr" "s1 = s'" by simp_all
  from run_setup_Inl [OF early(1)] completed show ?thesis
    unfolding rr by auto
next
  case (stopped e s1)
  with run have "handled env e s1 = (Inr rr, s')" by simp
  from handled_Inr(4) [OF this] completed show ?thesis by simp
next
  case (raised w s1 e s2)
  with run have "handled env e s2 = (Inr rr, s')" by simp
  from handled_Inr(4) [OF this] completed show ?thesis by simp
next
  case (finished w s1 u s2)
  have m: "workflow_mode s \<noteq> ''automatic''"
    using mode by simp
  note rs = run_setup_manual [OF m finished(1)]
  from execute_steps_any [OF finished(2)] obtain es where
    es: "debug_logs s2 = debug_logs s1 @ es" "filter is_status_change es = []"
    and st: "status s2 = status s1"
    by blast
  have rr: "rr = result_of (update_status env ''completed'' s2) (content (last (messages s2))) None"
    using run finished(3) by auto
  have "drop (length (debug_logs s)) (rr_debug_logs rr) =
          [debug_entry env (clock s) (''Status changed: '' @ status s @ '' -> running''),
            debug_entry env (clock s + 1) (''Starting run with task: '' @ task_input s),
            debug_entry env (clock s + 2) ''Status changed: running -> building_system_instruction'',
            debug_entry env (clock s + 3)
              ''Status changed: building_system_instruction -> system_instruction_built'',
            debug_entry env (clock s + 4)
              ''Status changed: system_instruction_built -> generating_workflow'',
            debug_entry env (clock s + 5)
              ''Status changed: generating_workflow -> workflow_generated'',
            debug_entry env (clock s + 6)
              ''Status changed: workflow_generated -> executing_workflow'']
          @ es @
          [debug_entry env (clock s2) ''Status changed: executing_workflow -> completed'']"
    unfolding rr using es(1) st rs(6,7) by simp
  then show ?thesis
    using es(2) init by (simp add: status_changes_def)
qed

theorem manual_run_status_trace_witness:
  "workflow_mode demo_agent = ''manual'' \<and> status demo_agent = ''initialized'' \<and>
   map_sum id rr_status (fst (run demo_env demo_agent)) = Inr ''completed'' \<and>
   status_changes (drop 2 (debug_logs (snd (run demo_env demo_agent)))) =
     [''Status changed: initialized -> running'',
      ''Status changed: running -> building_system_instruction'',
      ''Status changed: building_system_instruction -> system_instruction_built'',
      ''Status changed: system_instruction_built -> generating_workflow'',
      ''Status changed: generating_workflow -> workflow_generated'',
      ''Status changed: workflow_generated -> executing_workflow'',
      ''Status changed: executing_workflow -> completed'']"
proof -
  let ?s1 = "snd (run_setup demo_env demo_agent)"
  let ?s2 = "snd (execute_steps demo_env 0 manual_steps ?s1)"
  let ?s3 = "update_status demo_env ''completed'' ?s2"
  let ?rr = "result_of ?s3 (content (last (messages ?s2))) None"
  have mode: "workflow_mode demo_agent = ''manual''" by simp
  have init: "status demo_agent = ''initialized''" by simp
  have "fst (run_setup demo_env demo_agent) = Inr manual_steps"
    by (rule run_setup_manual_reaches [OF mode]) simp_all
  then have reach: "run_setup demo_env demo_agent = (Inr manual_steps, ?s1)"
    by (simp add: prod_eq_iff)
  have "fst (execute_steps demo_env 0 manual_steps ?s1) = Inr ()"
    by (rule execute_steps_responsive [OF demo_env_responsive])
  then have ok: "execute_steps demo_env 0 manual_steps ?s1 = (Inr (), ?s2)"
    by (simp add: prod_eq_iff)
  have run: "run demo_env demo_agent = (Inr ?rr, ?s3)"
    by (rule run_finished [OF reach ok])
  have completed: "rr_status ?rr = ''completed''" by simp
  from manual_run_status_trace [OF mode init run completed] run mode init
  show ?thesis by simp
qed





text \<open>
  \<^bold>\<open>C10.\<close> A step with an empty \<open>tool_use\<close> makes exactly one call, the language-model
  request, and that request carries no tools; \<^verbatim>\<open>pre_select_tools\<close> is not called.
\<close>

theorem empty_tool_use_no_resolution:
  "tool_use stp = [] \<Longrightarrow>
   events (snd (execute_step env i stp s)) =
     events s @
       [SendRequest (agent_name s)
          \<lparr>q_messages = messages s @ [step_prompt i stp], q_tools = None,
           q_action_type = Some (action_type stp), q_message_return_type = None\<rparr>]"
  by (simp add: execute_step_def Let_def step_prompt_def split: sum.splits)

theorem empty_tool_use_no_resolution_witness:
  "tool_use solve_step = [] \<and>
   events (snd (execute_step demo_env 0 solve_step demo_agent)) =
     [SendRequest ''math_agent''
        \<lparr>q_messages = [step_prompt 0 solve_step], q_tools = None,
         q_action_type = Some ''chat'', q_message_return_type = None\<rparr>]"
  using empty_tool_use_no_resolution [of solve_step demo_env 0 demo_agent]
  by (simp add: solve_step_def)

end
